theory Spec2Isabelle
  imports Complex_Main "HOL-Library.Char_ord" "HOL-Library.List_Lexorder" "HOL-Library.Monad_Syntax"
begin

section \<open>Values of the JavaScript runtime\<close>

text \<open>
  A JavaScript number is modelled as an exact rational or \<open>NaN\<close>.  The simulator and the
  offset utility only subtract millisecond counts, add minute counts and compare with
  zero, all of which are exact on the doubles involved.
\<close>

datatype number = NaN | Num rat

fun minus_number :: "number \<Rightarrow> number \<Rightarrow> number" where
  "minus_number (Num a) (Num b) = Num (a - b)"
| "minus_number _ _ = NaN"

text \<open>JavaScript truthiness of an optional numeric property: absent, \<open>0\<close> and \<open>NaN\<close> are falsy.\<close>

fun truthy :: "number option \<Rightarrow> bool" where
  "truthy None = False"
| "truthy (Some NaN) = False"
| "truthy (Some (Num x)) = (x \<noteq> 0)"

text \<open>
  \<open>a > b\<close> where \<open>a\<close> is \<open>null\<close> or a string and \<open>b\<close> is a string: JavaScript compares two
  strings by code units (the lexicographic order of \<open>HOL-Library.List_Lexorder\<close> over
  \<open>HOL-Library.Char_ord\<close>); \<open>null > s\<close> converts \<open>s\<close> to a number and is false for every
  timestamp string.
\<close>

definition js_gt :: "string option \<Rightarrow> string \<Rightarrow> bool" where
  "js_gt a b = (case a of None \<Rightarrow> False | Some s \<Rightarrow> s > b)"

section \<open>Events\<close>

text \<open>
  An event is a JavaScript object.  The model keeps the properties the simulator reads
  or writes, each optional where the code tests for its presence, and carries all the
  other properties along in \<open>other\<close>.  \<open>time\<close> is the ISO-8601 string of the object.
\<close>

datatype event = Event
  (time: string)
  (etype: string)
  (deliveryType: "string option")
  (duration: "number option")
  (previous: "event option")
  (annotations: "string list")
  (normal: "number option")
  (expectedNormal: "number option")
  (wizard_bolus: "event option")
  (event_index: "int option")
  (other: "(string \<times> string) list")

fun set_duration :: "number option \<Rightarrow> event \<Rightarrow> event" where
  "set_duration d (Event t ty dt du pr an no en bo ix ot) = Event t ty dt d pr an no en bo ix ot"

fun set_previous :: "event option \<Rightarrow> event \<Rightarrow> event" where
  "set_previous p (Event t ty dt du pr an no en bo ix ot) = Event t ty dt du p an no en bo ix ot"

fun set_annotations :: "string list \<Rightarrow> event \<Rightarrow> event" where
  "set_annotations a (Event t ty dt du pr an no en bo ix ot) = Event t ty dt du pr a no en bo ix ot"

fun delete_index :: "event \<Rightarrow> event" where
  "delete_index (Event t ty dt du pr an no en bo ix ot) = Event t ty dt du pr an no en bo None ot"

text \<open>\<open>_.omit(e, 'previous')\<close>: a copy of the object without its \<open>previous\<close> property.\<close>

definition omit_previous :: "event \<Rightarrow> event" where
  "omit_previous e = set_previous None e"

subsection \<open>The object builder and the annotation helper\<close>

text \<open>
  The simulator receives its segments from the object builder (\<open>lib/objectBuilder\<close>),
  whose source is missing.  The spec calls it a builder with deferred finalization: a
  segment is assembled before its duration is known, and one transition produces the
  finished value.
\<close>

text \<open>
  Modelled from the spec: \<open>isAssigned('duration')\<close> of the object builder, which tells
  whether a duration ``was already declared''.
\<close>

definition isAssigned_duration :: "event \<Rightarrow> bool" where
  "isAssigned_duration e = (duration e \<noteq> None)"

text \<open>
  Modelled from the spec: \<open>with_duration\<close> of the object builder, which gives the segment
  its duration.
\<close>

definition with_duration :: "number \<Rightarrow> event \<Rightarrow> event" where
  "with_duration d e = set_duration (Some d) e"

text \<open>
  Modelled from the spec: \<open>done()\<close> of the object builder, the transition from the draft to
  the finished value, which hands over the object with the properties assigned so far.
\<close>

definition done_event :: "event \<Rightarrow> event" where
  "done_event e = e"

text \<open>
  Modelled from the spec: \<open>annotateEvent\<close> of the annotation registry
  (\<open>lib/eventAnnotations\<close>, whose source is missing), which ``appends structured advisory
  codes to a canonical record''.
\<close>

definition annotateEvent :: "event \<Rightarrow> string \<Rightarrow> event" where
  "annotateEvent e code = set_annotations (annotations e @ [code]) e"

section \<open>The simulator\<close>

text \<open>
  \<open>make(config)\<close>, here \<open>make_simulator\<close>, closes over three variables: the \<open>events\<close>
  array, \<open>currBasal\<close> and \<open>currTimestamp\<close>.  Every method is a function from this state to
  an outcome and the state it leaves behind; a thrown \<open>Error\<close> is the outcome \<open>Inl\<close>.
\<close>

record state =
  events :: "event list"
  currBasal :: "event option"
  currTimestamp :: "string option"

definition make_simulator :: state where
  "make_simulator = \<lparr>events = [], currBasal = None, currTimestamp = None\<rparr>"

datatype error = TimestampsMustBeInOrder

definition ensureTimestamp :: "event \<Rightarrow> state \<Rightarrow> (error + event) \<times> state" where
  "ensureTimestamp e st =
     (if js_gt (currTimestamp st) (time e) then (Inl TimestampsMustBeInOrder, st)
      else (Inr e, st\<lparr>currTimestamp := Some (time e)\<rparr>))"

definition simpleSimulate :: "event \<Rightarrow> state \<Rightarrow> (error + unit) \<times> state" where
  "simpleSimulate e st =
     (case ensureTimestamp e st of
        (Inl err, st1) \<Rightarrow> (Inl err, st1)
      | (Inr _, st1) \<Rightarrow> (Inr (), st1\<lparr>events := events st1 @ [e]\<rparr>))"

definition alarm :: "event \<Rightarrow> state \<Rightarrow> (error + unit) \<times> state" where
  "alarm event = simpleSimulate event"

text \<open>
  \<open>basal\<close> takes the runtime's \<open>Date.parse\<close> as its first argument.
\<close>

definition basal :: "(string \<Rightarrow> number) \<Rightarrow> event \<Rightarrow> state \<Rightarrow> (error + unit) \<times> state" where
  "basal Date_parse event st =
     (case ensureTimestamp event st of
        (Inl err, st1) \<Rightarrow> (Inl err, st1)
      | (Inr _, st1) \<Rightarrow>
          (case currBasal st1 of
             None \<Rightarrow> (Inr (), st1\<lparr>currBasal := Some event\<rparr>)
           | Some cb \<Rightarrow>
               if time cb \<noteq> time event then
                 let cb1 = (if \<not> isAssigned_duration cb
                            then with_duration
                                   (minus_number (Date_parse (time event)) (Date_parse (time cb))) cb
                            else cb);
                     cb2 = done_event cb1;
                     event1 = set_previous (Some (omit_previous cb2)) event
                 in (Inr (), st1\<lparr>events := events st1 @ [cb2], currBasal := Some event1\<rparr>)
               else (Inr (), st1\<lparr>currBasal := Some event\<rparr>)))"

text \<open>
  \<open>finalBasal\<close> reads \<open>config.settings\<close> and calls \<open>common.finalScheduledBasal\<close>, the
  schedule finalizer of \<open>lib/commonSimulations\<close>; both are arguments here.
\<close>

definition finalBasal ::
  "'s option \<Rightarrow> (event \<Rightarrow> 's \<Rightarrow> string \<Rightarrow> event) \<Rightarrow> state \<Rightarrow> (error + unit) \<times> state" where
  "finalBasal settings finalScheduledBasal st =
     (case currBasal st of
        None \<Rightarrow> (Inr (), st)
      | Some cb \<Rightarrow>
          let cb1 =
            (if deliveryType cb \<noteq> Some ''scheduled'' then
               (if deliveryType cb = Some ''temp'' then done_event cb
                else if \<not> isAssigned_duration cb then
                  done_event (annotateEvent (set_duration (Some (Num 0)) cb) ''basal/unknown-duration'')
                else done_event cb)
             else (case settings of
                     Some s \<Rightarrow> finalScheduledBasal cb s ''tandem''
                   | None \<Rightarrow>
                       done_event (annotateEvent (with_duration (Num 0) cb) ''basal/unknown-duration'')))
          in (Inr (), st\<lparr>currBasal := Some cb1, events := events st @ [cb1]\<rparr>))"

definition bolus :: "event \<Rightarrow> state \<Rightarrow> (error + unit) \<times> state" where
  "bolus event = simpleSimulate event"

definition changeDeviceTime :: "event \<Rightarrow> state \<Rightarrow> (error + unit) \<times> state" where
  "changeDeviceTime event = simpleSimulate event"

definition changeReservoir :: "event \<Rightarrow> state \<Rightarrow> (error + unit) \<times> state" where
  "changeReservoir event = simpleSimulate event"

definition resume :: "event \<Rightarrow> state \<Rightarrow> (error + unit) \<times> state" where
  "resume event = simpleSimulate event"

definition pumpSettings :: "event \<Rightarrow> state \<Rightarrow> (error + unit) \<times> state" where
  "pumpSettings event = simpleSimulate event"

definition smbg :: "event \<Rightarrow> state \<Rightarrow> (error + unit) \<times> state" where
  "smbg event = simpleSimulate event"

definition suspend :: "event \<Rightarrow> state \<Rightarrow> (error + unit) \<times> state" where
  "suspend event = simpleSimulate event"

definition wizard :: "event \<Rightarrow> state \<Rightarrow> (error + unit) \<times> state" where
  "wizard event = simpleSimulate event"

text \<open>
  The predicate of \<open>filterOutZeroBoluses\<close>, applied to an event whose \<open>index\<close> has just
  been deleted.
\<close>

definition keepEvent :: "event \<Rightarrow> bool" where
  "keepEvent event =
     (if etype event = ''bolus'' then
        (if normal event = Some (Num 0) \<and> \<not> truthy (expectedNormal event) then False else True)
      else if etype event = ''wizard'' then
        (case wizard_bolus event of
           Some b \<Rightarrow> (if normal b = Some (Num 0) \<and> \<not> truthy (expectedNormal b) then False else True)
         | None \<Rightarrow> True)
      else True)"

text \<open>
  \<open>getEvents\<close> deletes \<open>index\<close> from every stored object (the array holds the objects
  themselves, so the deletion stays), filters, and sorts the result by \<open>time\<close> with the
  stable \<open>_.sortBy\<close>.
\<close>

definition getEvents :: "state \<Rightarrow> event list \<times> state" where
  "getEvents st =
     (let stored = map delete_index (events st)
      in (sort_key time (filter keepEvent stored), st\<lparr>events := stored\<rparr>))"


subsection \<open>Sessions\<close>

text \<open>
  The ten ingestion methods, and a session as a list of calls.  A session stops at the
  first call that throws, in the state the throw left.  Within a session the list that
  \<open>getEvents\<close> returns is dropped; the deletion of \<open>index\<close> it performs stays.
\<close>

datatype ingestion =
  Alarm | Basal | Bolus | ChangeDeviceTime | ChangeReservoir | Resume | PumpSettings | Smbg
  | Suspend | Wizard

fun ingest ::
  "(string \<Rightarrow> number) \<Rightarrow> ingestion \<Rightarrow> event \<Rightarrow> state \<Rightarrow> (error + unit) \<times> state" where
  "ingest Date_parse Alarm e = alarm e"
| "ingest Date_parse Basal e = basal Date_parse e"
| "ingest Date_parse Bolus e = bolus e"
| "ingest Date_parse ChangeDeviceTime e = changeDeviceTime e"
| "ingest Date_parse ChangeReservoir e = changeReservoir e"
| "ingest Date_parse Resume e = resume e"
| "ingest Date_parse PumpSettings e = pumpSettings e"
| "ingest Date_parse Smbg e = smbg e"
| "ingest Date_parse Suspend e = suspend e"
| "ingest Date_parse Wizard e = wizard e"

datatype call = Ingest ingestion event | FinalBasal | GetEvents

fun call_event :: "call \<Rightarrow> event option" where
  "call_event (Ingest k e) = Some e"
| "call_event FinalBasal = None"
| "call_event GetEvents = None"

fun do_call ::
  "(string \<Rightarrow> number) \<Rightarrow> 's option \<Rightarrow> (event \<Rightarrow> 's \<Rightarrow> string \<Rightarrow> event) \<Rightarrow> call \<Rightarrow> state
     \<Rightarrow> (error + unit) \<times> state" where
  "do_call Date_parse settings fsb (Ingest k e) st = ingest Date_parse k e st"
| "do_call Date_parse settings fsb FinalBasal st = finalBasal settings fsb st"
| "do_call Date_parse settings fsb GetEvents st = (Inr (), snd (getEvents st))"

fun run ::
  "(string \<Rightarrow> number) \<Rightarrow> 's option \<Rightarrow> (event \<Rightarrow> 's \<Rightarrow> string \<Rightarrow> event) \<Rightarrow> call list \<Rightarrow> state
     \<Rightarrow> (error + unit) \<times> state" where
  "run Date_parse settings fsb [] st = (Inr (), st)"
| "run Date_parse settings fsb (c # cs) st =
     (case do_call Date_parse settings fsb c st of
        (Inl err, st1) \<Rightarrow> (Inl err, st1)
      | (Inr _, st1) \<Rightarrow> run Date_parse settings fsb cs st1)"

text \<open>
  The shape the data model gives to \<open>previous\<close>: when present, it carries no \<open>previous\<close>
  of its own.
\<close>

definition single_level :: "event \<Rightarrow> bool" where
  "single_level e = (case previous e of None \<Rightarrow> True | Some p \<Rightarrow> previous p = None)"

text \<open>The invariant of a session: the stored events and the open segment have that shape.\<close>

definition linked :: "state \<Rightarrow> bool" where
  "linked st =
     (list_all single_level (events st)
      \<and> (case currBasal st of None \<Rightarrow> True | Some b \<Rightarrow> single_level b))"

subsection \<open>\<open>Date.parse\<close> on the strings that \<open>toISOString\<close> writes\<close>

text \<open>
  The simulator's theorems hold for any \<open>Date.parse\<close>.  To run it on the timestamps of
  the test suite, this is \<open>Date.parse\<close> on the 24 characters \<open>YYYY-MM-DDTHH:mm:ss.sssZ\<close>:
  milliseconds since 1970-01-01T00:00:00.000Z, \<open>NaN\<close> for any other string.
\<close>

definition digit :: "char \<Rightarrow> nat option" where
  "digit c = (if CHR ''0'' \<le> c \<and> c \<le> CHR ''9'' then Some (of_char c - 48) else None)"

fun decimal :: "nat \<Rightarrow> string \<Rightarrow> nat option" where
  "decimal acc [] = Some acc"
| "decimal acc (c # cs) = (case digit c of None \<Rightarrow> None | Some d \<Rightarrow> decimal (10 * acc + d) cs)"

definition days_from_civil :: "int \<Rightarrow> int \<Rightarrow> int \<Rightarrow> int" where
  "days_from_civil y m d =
     (let y1 = (if m \<le> 2 then y - 1 else y);
          era = y1 div 400;
          yoe = y1 - era * 400;
          doy = (153 * (if m > 2 then m - 3 else m + 9) + 2) div 5 + d - 1;
          doe = yoe * 365 + yoe div 4 - yoe div 100 + doy
      in era * 146097 + doe - 719468)"

definition separators :: "string \<Rightarrow> bool" where
  "separators s =
     (length s = 24 \<and> s ! 4 = CHR ''-'' \<and> s ! 7 = CHR ''-'' \<and> s ! 10 = CHR ''T'' \<and>
      s ! 13 = CHR '':'' \<and> s ! 16 = CHR '':'' \<and> s ! 19 = CHR ''.'' \<and> s ! 23 = CHR ''Z'')"

definition iso_fields :: "string \<Rightarrow> (nat \<times> nat \<times> nat \<times> nat \<times> nat \<times> nat \<times> nat) option" where
  "iso_fields s = do {
     y \<leftarrow> decimal 0 (take 4 s);
     mo \<leftarrow> decimal 0 (take 2 (drop 5 s));
     d \<leftarrow> decimal 0 (take 2 (drop 8 s));
     h \<leftarrow> decimal 0 (take 2 (drop 11 s));
     mi \<leftarrow> decimal 0 (take 2 (drop 14 s));
     se \<leftarrow> decimal 0 (take 2 (drop 17 s));
     ms \<leftarrow> decimal 0 (take 3 (drop 20 s));
     Some (y, mo, d, h, mi, se, ms)
   }"

definition Date_parse_iso :: "string \<Rightarrow> number" where
  "Date_parse_iso s =
     (if separators s then
        (case iso_fields s of
           None \<Rightarrow> NaN
         | Some (y, mo, d, h, mi, se, ms) \<Rightarrow>
             if 1 \<le> mo \<and> mo \<le> 12 \<and> 1 \<le> d \<and> d \<le> 31 \<and> h \<le> 23 \<and> mi \<le> 59 \<and> se \<le> 59 then
               Num (of_int
                 ((((days_from_civil (int y) (int mo) (int d) * 24 + int h) * 60 + int mi) * 60
                    + int se) * 1000 + int ms))
             else NaN)
      else NaN)"


section \<open>The timezone offset utility\<close>

text \<open>
  \<open>TimezoneOffsetUtil(timezone, mostRecent, changes)\<close> calls the date library \<open>sundial\<close>,
  which is a dependency and not code of the repository; its functions are the fields of
  a record handed to the model.  \<open>applyTimezone\<close> and \<open>applyOffset\<close> stand for the call
  followed by \<open>toISOString()\<close>, \<open>checkTimezoneName\<close> is false where the library throws,
  and \<open>parsesAsDate s\<close> is \<open>!isNaN(Date.parse(s))\<close>.
\<close>

record 'd sundial =
  checkTimezoneName :: "string \<Rightarrow> bool"
  parsesAsDate :: "string \<Rightarrow> bool"
  dateDifference :: "string \<Rightarrow> string \<Rightarrow> rat"
  applyTimezone :: "'d \<Rightarrow> string \<Rightarrow> string"
  applyOffset :: "'d \<Rightarrow> int \<Rightarrow> string"
  getOffsetFromZone :: "string \<Rightarrow> string \<Rightarrow> int"

text \<open>
  A date and time settings change: \<open>seq_index\<close> is its property \<open>index\<close>, \<open>change_from\<close>
  and \<open>change_to\<close> are \<open>change.from\<close> and \<open>change.to\<close>.
\<close>

record 'd timeChange =
  subType :: "string option"
  seq_index :: int
  jsDate :: 'd
  change_from :: string
  change_to :: string

text \<open>An offset interval; \<open>endTime\<close> is its property \<open>end\<close>.\<close>

record offsetInterval =
  start :: "string option"
  endTime :: string
  startIndex :: "int option"
  endIndex :: "int option"
  timezoneOffset :: int

record utcInfo =
  utc_time :: string
  utc_timezoneOffset :: int

text \<open>\<open>Math.round\<close>: the nearest integer, a half rounded up.\<close>

definition Math_round :: "rat \<Rightarrow> int" where
  "Math_round x = \<lfloor>x + 1 / 2\<rfloor>"

definition findOffsetDifference :: "'d sundial \<Rightarrow> 'd timeChange \<Rightarrow> int" where
  "findOffsetDifference sd event =
     Math_round (dateDifference sd (change_from event) (change_to event) / 15) * 15"

definition MAX_DIFF :: int where
  "MAX_DIFF = 1560"

definition adjustCurrentOffset :: "'d sundial \<Rightarrow> 'd timeChange \<Rightarrow> int \<Rightarrow> int" where
  "adjustCurrentOffset sd event currentOffset =
     (let difference = findOffsetDifference sd event
      in if \<bar>difference\<bar> \<le> MAX_DIFF
         then currentOffset
                + Math_round (dateDifference sd (change_from event) (change_to event) / 60) * 60
         else currentOffset)"

datatype tz_error = InvalidTimezoneName | InvalidMostRecent | WrongSubType

text \<open>
  The body of the loop for \<open>i > 0\<close>, and after the last change the interval that is open
  towards the past.  \<open>lastTime\<close> is \<open>sorted[i - 1].time\<close>.
\<close>

fun olderChanges ::
  "'d sundial \<Rightarrow> 'd timeChange list \<Rightarrow> int \<Rightarrow> int \<Rightarrow> string \<Rightarrow> offsetInterval list
     \<Rightarrow> offsetInterval list" where
  "olderChanges sd [] currentOffset currentIndex lastTime offsetIntervals =
     offsetIntervals @
       [\<lparr>start = None, endTime = lastTime, startIndex = Some currentIndex, endIndex = None,
         timezoneOffset = currentOffset\<rparr>]"
| "olderChanges sd (change # rest) currentOffset currentIndex lastTime offsetIntervals =
     (let t = applyOffset sd (jsDate change) (- currentOffset)
      in olderChanges sd rest (adjustCurrentOffset sd change currentOffset) (seq_index change) t
           (offsetIntervals @
              [\<lparr>start = Some t, endTime = lastTime, startIndex = Some currentIndex,
                endIndex = Some (seq_index change), timezoneOffset = currentOffset\<rparr>]))"

text \<open>The constructor, up to the offset intervals it leaves in the object.\<close>

definition TimezoneOffsetUtil ::
  "'d sundial \<Rightarrow> string \<Rightarrow> string \<Rightarrow> 'd timeChange list \<Rightarrow> tz_error + offsetInterval list" where
  "TimezoneOffsetUtil sd timezone mostRecent changes =
     (if \<not> checkTimezoneName sd timezone then Inl InvalidTimezoneName
      else if \<not> parsesAsDate sd mostRecent then Inl InvalidMostRecent
      else if changes = [] then Inr []
      else if list_ex (\<lambda>change. subType change \<noteq> Some ''timeChange'') changes then Inl WrongSubType
      else
        (case rev (sort_key seq_index changes) of
           [] \<Rightarrow> Inr []
         | change # rest \<Rightarrow>
             let t = applyTimezone sd (jsDate change) timezone;
                 offset = getOffsetFromZone sd t timezone
             in Inr (olderChanges sd rest (adjustCurrentOffset sd change offset) (seq_index change) t
                  [\<lparr>start = Some t, endTime = mostRecent, startIndex = None,
                    endIndex = Some (seq_index change), timezoneOffset = offset\<rparr>])))"

text \<open>
  \<open>lookup(datetime, index)\<close>: the loop over the intervals returns at the first match and
  falls off the end, that is returns \<open>undefined\<close> (\<open>None\<close>), when there is none.  A
  \<open>null\<close> index is \<open>None\<close>.  \<open>utc >= start\<close> is false when \<open>start\<close> is \<open>null\<close>.
\<close>

fun lookup_loop ::
  "'d sundial \<Rightarrow> 'd \<Rightarrow> int option \<Rightarrow> offsetInterval list \<Rightarrow> utcInfo option" where
  "lookup_loop sd datetime index [] = None"
| "lookup_loop sd datetime index (currentInterval # rest) =
     (let utc = applyOffset sd datetime (- timezoneOffset currentInterval);
          retObj = \<lparr>utc_time = utc, utc_timezoneOffset = timezoneOffset currentInterval\<rparr>
      in case index of
           Some i \<Rightarrow>
             (case (startIndex currentInterval, endIndex currentInterval) of
                (Some s, Some e) \<Rightarrow>
                  if i < s \<and> i > e then Some retObj else lookup_loop sd datetime index rest
              | (None, Some e) \<Rightarrow>
                  if i > e then Some retObj else lookup_loop sd datetime index rest
              | (Some s, None) \<Rightarrow>
                  if i < s then Some retObj else lookup_loop sd datetime index rest
              | (None, None) \<Rightarrow> lookup_loop sd datetime index rest)
         | None \<Rightarrow>
             if (case start currentInterval of Some s \<Rightarrow> utc \<ge> s | None \<Rightarrow> False)
                \<and> utc \<le> endTime currentInterval
             then Some retObj
             else if start currentInterval = None \<and> utc \<le> endTime currentInterval
             then Some retObj
             else lookup_loop sd datetime index rest)"

definition lookup ::
  "'d sundial \<Rightarrow> string \<Rightarrow> offsetInterval list \<Rightarrow> 'd \<Rightarrow> int option \<Rightarrow> utcInfo option" where
  "lookup sd timezone offsetIntervals datetime index =
     (if offsetIntervals \<noteq> [] then lookup_loop sd datetime index offsetIntervals
      else
        (let utc = applyTimezone sd datetime timezone
         in Some \<lparr>utc_time = utc, utc_timezoneOffset = getOffsetFromZone sd utc timezone\<rparr>))"


section \<open>The bolus termination matcher\<close>

text \<open>
  Modelled from the spec: the bolus/wizard termination matcher (\<open>bolusTermination\<close> of the
  Insulet simulator), of which only the tests are present.  The spec: the state names the
  most recently emitted dose and which of its phases remain outstanding; ``a simple dose
  has one phase; a combined immediate+extended dose has two phases, ordered: immediate
  phase first, extended phase second''.  A termination notice is applied to the next
  outstanding phase, which is then settled.  Immediate phase:
  \<open>expectedNormal = declaredImmediateVolume + missedVolume\<close>.  Extended phase:
  \<open>expectedExtended = declaredExtendedVolume + missedVolume\<close> and
  \<open>expectedDuration = declaredExtendedDuration + remainingDuration\<close>.  The dose is amended
  in place, in the output.  What a notice does when no phase is outstanding is left open
  by the spec; here it changes nothing.
\<close>

datatype declaredDose =
  ImmediateDose rat
  | ExtendedDose rat rat
  | CombinedDose rat rat rat

datatype phase = ImmediatePhase | ExtendedPhase

record dose =
  declared :: declaredDose
  doseExpectedNormal :: "rat option"
  doseExpectedExtended :: "rat option"
  doseExpectedDuration :: "rat option"

record terminationNotice =
  missedInsulin :: rat
  durationLeft :: rat

record matcher =
  emitted :: "dose list"
  mostRecentDose :: "nat option"
  outstanding :: "phase list"

text \<open>
  Modelled from the spec: the phases of a dose, ``immediate phase first, extended phase
  second''.
\<close>

fun phases :: "declaredDose \<Rightarrow> phase list" where
  "phases (ImmediateDose n) = [ImmediatePhase]"
| "phases (ExtendedDose e d) = [ExtendedPhase]"
| "phases (CombinedDose n e d) = [ImmediatePhase, ExtendedPhase]"

text \<open>
  Modelled from the spec: what a termination notice does to the phase it is applied to.
\<close>

fun amend :: "phase \<Rightarrow> terminationNotice \<Rightarrow> dose \<Rightarrow> dose" where
  "amend ImmediatePhase notice dose =
     (case declared dose of
        ImmediateDose n \<Rightarrow> dose\<lparr>doseExpectedNormal := Some (n + missedInsulin notice)\<rparr>
      | CombinedDose n e d \<Rightarrow> dose\<lparr>doseExpectedNormal := Some (n + missedInsulin notice)\<rparr>
      | ExtendedDose e d \<Rightarrow> dose)"
| "amend ExtendedPhase notice dose =
     (case declared dose of
        ExtendedDose e d \<Rightarrow>
          dose\<lparr>doseExpectedExtended := Some (e + missedInsulin notice),
               doseExpectedDuration := Some (d + durationLeft notice)\<rparr>
      | CombinedDose n e d \<Rightarrow>
          dose\<lparr>doseExpectedExtended := Some (e + missedInsulin notice),
               doseExpectedDuration := Some (d + durationLeft notice)\<rparr>
      | ImmediateDose n \<Rightarrow> dose)"

text \<open>Modelled from the spec: the matcher before any dose.\<close>

definition newMatcher :: matcher where
  "newMatcher = \<lparr>emitted = [], mostRecentDose = None, outstanding = []\<rparr>"

text \<open>
  Modelled from the spec: \<open>ingestBolus\<close>, which passes the dose through and registers it as
  the most recent dose, all of its phases outstanding.
\<close>

definition ingestBolus :: "declaredDose \<Rightarrow> matcher \<Rightarrow> matcher" where
  "ingestBolus d m =
     \<lparr>emitted = emitted m @
         [\<lparr>declared = d, doseExpectedNormal = None, doseExpectedExtended = None,
           doseExpectedDuration = None\<rparr>],
      mostRecentDose = Some (length (emitted m)),
      outstanding = phases d\<rparr>"

text \<open>
  Modelled from the spec: \<open>ingestTermination\<close>, which applies the notice to the next
  outstanding phase of the most recent dose and settles that phase.
\<close>

definition ingestTermination :: "terminationNotice \<Rightarrow> matcher \<Rightarrow> matcher" where
  "ingestTermination notice m =
     (case (mostRecentDose m, outstanding m) of
        (Some i, ph # rest) \<Rightarrow>
          if i < length (emitted m)
          then m\<lparr>emitted := (emitted m)[i := amend ph notice (emitted m ! i)], outstanding := rest\<rparr>
          else m
      | _ \<Rightarrow> m)"

section \<open>The suspend anchor\<close>

text \<open>
  The anchoring of a resume to the earliest pending suspend belongs to the Insulet
  simulator, of which only the tests are present.  The spec gives the reconciler the
  state \<open>pendingSuspend\<close>, the ``optional earliest unresolved suspend Status'', next to
  \<open>lastRecordTime\<close>, which is kept ``for ordering enforcement'', and the list of
  emitted events.
\<close>

datatype reconcilerError = OrderingViolation

record reconciler =
  emittedEvents :: "event list"
  pendingSuspend :: "event option"
  lastRecordTime :: "string option"

text \<open>Modelled from the spec: the reconciler before any record.\<close>

definition newReconciler :: reconciler where
  "newReconciler = \<lparr>emittedEvents = [], pendingSuspend = None, lastRecordTime = None\<rparr>"

text \<open>
  Modelled from the spec: the check every operation starts with, ``new record's absolute
  time must be \<open>\<ge>\<close> the time of the previously ingested record; violation fails with an
  OrderingViolation''.
\<close>

definition enforceOrder :: "event \<Rightarrow> reconciler \<Rightarrow> reconcilerError + reconciler" where
  "enforceOrder newRecord r =
     (if js_gt (lastRecordTime r) (time newRecord) then Inl OrderingViolation
      else Inr (r\<lparr>lastRecordTime := Some (time newRecord)\<rparr>))"

text \<open>
  Modelled from the spec: \<open>ingestSuspend\<close>, ``pass through; if no suspend is currently
  pending, remember it as \<open>pendingSuspend\<close>''; later suspends of the run ``are emitted but
  do not replace the anchor''.
\<close>

definition ingestSuspend :: "event \<Rightarrow> reconciler \<Rightarrow> reconcilerError + reconciler" where
  "ingestSuspend status r =
     (case enforceOrder status r of
        Inl err \<Rightarrow> Inl err
      | Inr r1 \<Rightarrow>
          Inr (r1\<lparr>emittedEvents := emittedEvents r1 @ [status],
                  pendingSuspend :=
                    (case pendingSuspend r1 of None \<Rightarrow> Some status | Some anchor \<Rightarrow> Some anchor)\<rparr>))"

text \<open>
  Modelled from the spec: \<open>ingestResume\<close>, ``if \<open>pendingSuspend\<close> is set, attach it as
  \<open>previous\<close> on the resume and clear the anchor; emit''.
\<close>

definition ingestResume :: "event \<Rightarrow> reconciler \<Rightarrow> reconcilerError + reconciler" where
  "ingestResume status r =
     (case enforceOrder status r of
        Inl err \<Rightarrow> Inl err
      | Inr r1 \<Rightarrow>
          Inr (r1\<lparr>emittedEvents := emittedEvents r1 @
                    [case pendingSuspend r1 of
                       None \<Rightarrow> status
                     | Some anchor \<Rightarrow> set_previous (Some anchor) status],
                  pendingSuspend := None\<rparr>))"

text \<open>
  Modelled from the spec: \<open>ingestPodActivation\<close>, which ``fabricates and emits a resume
  event at the activation time even though no explicit resume record arrived; anchors it
  to \<open>pendingSuspend\<close> exactly as \<open>ingestResume\<close> does, then clears the anchor''.  The
  resume it emits is the resume-like status it is given.
\<close>

definition ingestPodActivation :: "event \<Rightarrow> reconciler \<Rightarrow> reconcilerError + reconciler" where
  "ingestPodActivation resumeLikeStatus r = ingestResume resumeLikeStatus r"

text \<open>
  Status records as the reconciler receives them, and a session over them, which stops
  at the first violation.
\<close>

datatype statusRecord = SuspendRecord event | ResumeRecord event | PodActivationRecord event

fun ingestStatus :: "statusRecord \<Rightarrow> reconciler \<Rightarrow> reconcilerError + reconciler" where
  "ingestStatus (SuspendRecord status) r = ingestSuspend status r"
| "ingestStatus (ResumeRecord status) r = ingestResume status r"
| "ingestStatus (PodActivationRecord status) r = ingestPodActivation status r"

fun ingestAll :: "statusRecord list \<Rightarrow> reconciler \<Rightarrow> reconcilerError + reconciler" where
  "ingestAll [] r = Inr r"
| "ingestAll (x # xs) r =
     (case ingestStatus x r of Inl err \<Rightarrow> Inl err | Inr r1 \<Rightarrow> ingestAll xs r1)"

text \<open>Records in non-decreasing time order, after a record of time \<open>t\<close> if there was one.\<close>

fun arrivesInOrder :: "string option \<Rightarrow> event list \<Rightarrow> bool" where
  "arrivesInOrder t [] = True"
| "arrivesInOrder t (e # es) = (\<not> js_gt t (time e) \<and> arrivesInOrder (Some (time e)) es)"

section \<open>Records of the test suite\<close>

text \<open>The scheduled basals of the suite, one hour and then thirty minutes apart.\<close>

definition basal1 :: event where
  "basal1 = Event ''2014-09-25T02:00:00.000Z'' ''basal'' (Some ''scheduled'') None None [] None None
     None None [(''rate'', ''0.75''), (''scheduleName'', ''Alice'')]"

definition basal2 :: event where
  "basal2 = Event ''2014-09-25T03:00:00.000Z'' ''basal'' (Some ''scheduled'') None None [] None None
     None None [(''rate'', ''0.85''), (''scheduleName'', ''Alice'')]"

definition basal3 :: event where
  "basal3 = Event ''2014-09-25T03:30:00.000Z'' ''basal'' (Some ''scheduled'') None None [] None None
     None None [(''rate'', ''0.90''), (''scheduleName'', ''Alice'')]"





definition smbg1 :: event where
  "smbg1 = Event ''2014-09-25T01:00:00.000Z'' ''smbg'' None None None [] None None None (Some 7)
     [(''units'', ''mg/dL''), (''value'', ''1.3'')]"

definition smbg2 :: event where
  "smbg2 = Event ''2014-09-25T01:05:00.000Z'' ''smbg'' None None None [] None None None (Some 8)
     [(''units'', ''mg/dL''), (''value'', ''1.4'')]"

definition suspend1 :: event where
  "suspend1 = Event ''2014-09-25T01:00:00.000Z'' ''deviceEvent'' None None None [] None None None
     None [(''subType'', ''status''), (''status'', ''suspended'')]"

definition suspend2 :: event where
  "suspend2 = Event ''2014-09-25T01:05:00.000Z'' ''deviceEvent'' None None None [] None None None
     None [(''subType'', ''status''), (''status'', ''suspended'')]"

definition resume1 :: event where
  "resume1 = Event ''2014-09-25T02:00:00.000Z'' ''deviceEvent'' None None None [] None None None
     None [(''subType'', ''status''), (''status'', ''resumed'')]"

definition normalBolus :: event where
  "normalBolus = Event ''2014-09-25T01:00:00.000Z'' ''bolus'' None None None [] (Some (Num (13 / 10)))
     None None None [(''subType'', ''normal'')]"

text \<open>Zero-volume boluses: unamended, amended to 2.7, and amended to 0.\<close>

definition zeroBolus :: event where
  "zeroBolus = Event ''2014-09-25T01:05:00.000Z'' ''bolus'' None None None [] (Some (Num 0)) None
     None None [(''subType'', ''normal'')]"

definition zeroBolusAmended :: event where
  "zeroBolusAmended = Event ''2014-09-25T01:05:00.000Z'' ''bolus'' None None None [] (Some (Num 0))
     (Some (Num (27 / 10))) None None [(''subType'', ''normal'')]"

definition zeroBolusExpectedZero :: event where
  "zeroBolusExpectedZero = Event ''2014-09-25T01:05:00.000Z'' ''bolus'' None None None []
     (Some (Num 0)) (Some (Num 0)) None None [(''subType'', ''normal'')]"

definition zeroWizard :: event where
  "zeroWizard = Event ''2014-09-25T01:05:00.000Z'' ''wizard'' None None None [] None None
     (Some zeroBolus) None [(''units'', ''mg/dL'')]"

text \<open>A schedule finalizer to run \<open>finalBasal\<close> with: it annotates the segment.\<close>

definition annotatingFinalizer :: "event \<Rightarrow> unit \<Rightarrow> string \<Rightarrow> event" where
  "annotatingFinalizer b s family = annotateEvent b (family @ ''/basal/fabricated-from-schedule'')"

text \<open>
  Two clock changes in the zone \<open>UTC\<close> and what \<open>sundial\<close> returns on their dates: the later
  one (index 20) set the clock back by 45 minutes, the earlier one (index 10) by 10.
\<close>

definition change20 :: "string timeChange" where
  "change20 = \<lparr>subType = Some ''timeChange'', seq_index = 20, jsDate = ''2014-09-25T12:00:00'',
     change_from = ''2014-09-25T12:45:00'', change_to = ''2014-09-25T12:00:00''\<rparr>"

definition change10 :: "string timeChange" where
  "change10 = \<lparr>subType = Some ''timeChange'', seq_index = 10, jsDate = ''2014-09-24T08:00:00'',
     change_from = ''2014-09-24T08:10:00'', change_to = ''2014-09-24T08:00:00''\<rparr>"

definition exampleSundial :: "string sundial" where
  "exampleSundial =
     \<lparr>checkTimezoneName = (\<lambda>tz. tz = ''UTC''),
      parsesAsDate = (\<lambda>s. Date_parse_iso s \<noteq> NaN),
      dateDifference = (\<lambda>a b.
        if a = ''2014-09-25T12:45:00'' \<and> b = ''2014-09-25T12:00:00'' then 45
        else if a = ''2014-09-24T08:10:00'' \<and> b = ''2014-09-24T08:00:00'' then 10
        else 0),
      applyTimezone = (\<lambda>d tz. d @ ''.000Z''),
      applyOffset = (\<lambda>d offset.
        if d = ''2014-09-24T08:00:00'' \<and> offset = - 60 then ''2014-09-24T07:00:00.000Z''
        else d @ ''.000Z''),
      getOffsetFromZone = (\<lambda>t tz. 0)\<rparr>"

section \<open>Properties of the simulator\<close>

text \<open>
  C1.  Each of the ten ingestion methods compares the new record's time with the time of
  the record ingested before it.  When the new time is strictly earlier, the method
  throws the ordering error and leaves the whole state, the events list included, as it
  was; otherwise it returns and the recorded timestamp is the new record's time.
\<close>

theorem ingest_enforces_order:
  "(\<forall>t. currTimestamp st = Some t \<longrightarrow> time e < t \<longrightarrow>
      ingest Date_parse k e st = (Inl TimestampsMustBeInOrder, st))
   \<and> ((\<forall>t. currTimestamp st = Some t \<longrightarrow> \<not> time e < t) \<longrightarrow>
      fst (ingest Date_parse k e st) = Inr ()
      \<and> currTimestamp (snd (ingest Date_parse k e st)) = Some (time e))"
  by (cases k)
    (auto simp: alarm_def basal_def bolus_def changeDeviceTime_def changeReservoir_def resume_def
      pumpSettings_def smbg_def suspend_def wizard_def simpleSimulate_def ensureTimestamp_def
      js_gt_def Let_def split: option.splits)

theorem ingest_enforces_order_witness:
  "time smbg1 < time smbg2
   \<and> ingest Date_parse_iso Basal smbg1
        \<lparr>events = [smbg2], currBasal = None, currTimestamp = Some (time smbg2)\<rparr>
      = (Inl TimestampsMustBeInOrder,
         \<lparr>events = [smbg2], currBasal = None, currTimestamp = Some (time smbg2)\<rparr>)
   \<and> \<not> time basal1 < time smbg2
   \<and> fst (ingest Date_parse_iso Resume basal1
        \<lparr>events = [smbg2], currBasal = None, currTimestamp = Some (time smbg2)\<rparr>) = Inr ()
   \<and> currTimestamp (snd (ingest Date_parse_iso Resume basal1
        \<lparr>events = [smbg2], currBasal = None, currTimestamp = Some (time smbg2)\<rparr>))
      = Some (time basal1)"
proof -
  have lt: "time smbg1 < time smbg2"
    by (simp add: smbg1_def smbg2_def)
  have ge: "\<not> time basal1 < time smbg2"
    by (simp add: basal1_def smbg2_def)
  show ?thesis
    using lt ge
      ingest_enforces_order [of "\<lparr>events = [smbg2], currBasal = None, currTimestamp = Some (time smbg2)\<rparr>"
        smbg1 Date_parse_iso Basal]
      ingest_enforces_order [of "\<lparr>events = [smbg2], currBasal = None, currTimestamp = Some (time smbg2)\<rparr>"
        basal1 Date_parse_iso Resume]
    by simp
qed








subsection \<open>The back-reference \<open>previous\<close>\<close>

text \<open>
  Every call keeps the invariant \<open>linked\<close>: \<open>basal\<close> is the only method that writes a
  \<open>previous\<close>, and what it writes went through \<open>_.omit(..., 'previous')\<close>.
\<close>

lemma single_level_set_previous_omit [simp]:
  "single_level (set_previous (Some (omit_previous c)) e)"
  by (cases e; cases c) (simp add: single_level_def omit_previous_def)

lemma single_level_set_duration [simp]: "single_level (set_duration d e) = single_level e"
  by (cases e) (simp add: single_level_def)

lemma single_level_set_annotations [simp]: "single_level (set_annotations a e) = single_level e"
  by (cases e) (simp add: single_level_def)

lemma single_level_delete_index [simp]: "single_level (delete_index e) = single_level e"
  by (cases e) (simp add: single_level_def)

lemma linked_ingest:
  "linked st \<Longrightarrow> single_level e \<Longrightarrow> linked (snd (ingest Date_parse k e st))"
  by (cases k)
    (auto simp: linked_def alarm_def basal_def bolus_def changeDeviceTime_def changeReservoir_def
      resume_def pumpSettings_def smbg_def suspend_def wizard_def simpleSimulate_def
      ensureTimestamp_def with_duration_def done_event_def Let_def split: option.splits)

lemma linked_finalBasal:
  assumes "linked st" and "\<And>b s. single_level b \<Longrightarrow> single_level (fsb b s ''tandem'')"
  shows "linked (snd (finalBasal settings fsb st))"
  using assms
  by (auto simp: linked_def finalBasal_def with_duration_def done_event_def annotateEvent_def
      Let_def split: option.splits)

lemma linked_getEvents: "linked st \<Longrightarrow> linked (snd (getEvents st))"
  by (auto simp: linked_def getEvents_def Let_def list_all_iff split: option.splits)

lemma linked_do_call:
  assumes "linked st" and "\<And>b s. single_level b \<Longrightarrow> single_level (fsb b s ''tandem'')"
    and "case call_event c of None \<Rightarrow> True | Some e \<Rightarrow> single_level e"
  shows "linked (snd (do_call Date_parse settings fsb c st))"
  using assms by (cases c) (auto intro: linked_ingest linked_finalBasal linked_getEvents)

lemma linked_run:
  assumes "\<And>b s. single_level b \<Longrightarrow> single_level (fsb b s ''tandem'')"
  shows "linked st \<Longrightarrow>
     list_all (\<lambda>c. case call_event c of None \<Rightarrow> True | Some e \<Rightarrow> single_level e) cs \<Longrightarrow>
     linked (snd (run Date_parse settings fsb cs st))"
proof (induction cs arbitrary: st)
  case Nil
  then show ?case by simp
next
  case (Cons c cs)
  have step: "linked (snd (do_call Date_parse settings fsb c st))"
    using Cons.prems assms by (intro linked_do_call) auto
  show ?case
  proof (cases "do_call Date_parse settings fsb c st")
    case (Pair r st1)
    with step have l1: "linked st1" by simp
    show ?thesis
    proof (cases r)
      case (Inl err)
      with Pair l1 show ?thesis by simp
    next
      case (Inr u)
      with Pair l1 Cons.IH [of st1] Cons.prems show ?thesis by simp
    qed
  qed
qed

lemma linked_make: "linked make_simulator"
  by (simp add: linked_def make_simulator_def)

lemma getEvents_single_level:
  "linked st \<Longrightarrow> list_all single_level (fst (getEvents st))"
  by (auto simp: linked_def getEvents_def Let_def list_all_iff)

text \<open>
  C3.  In every session, every event in the events list and every event that \<open>getEvents\<close>
  returns has a \<open>previous\<close> that carries no \<open>previous\<close> of its own, provided the records
  handed in have that shape (a raw record carries no \<open>previous\<close> at all) and the schedule
  finalizer keeps it.
\<close>

theorem previous_is_single_level:
  assumes "list_all (\<lambda>c. case call_event c of None \<Rightarrow> True | Some e \<Rightarrow> single_level e) cs"
    and "\<And>b s. single_level b \<Longrightarrow> single_level (fsb b s ''tandem'')"
  shows "list_all single_level (events (snd (run Date_parse settings fsb cs make_simulator)))
     \<and> list_all single_level (fst (getEvents (snd (run Date_parse settings fsb cs make_simulator))))"
proof -
  have "linked (snd (run Date_parse settings fsb cs make_simulator))"
    using assms linked_make by (intro linked_run) auto
  then show ?thesis
    using getEvents_single_level by (auto simp: linked_def)
qed

theorem previous_is_single_level_witness:
  "map previous
     (fst (getEvents (snd (run Date_parse_iso None annotatingFinalizer
        [Ingest Basal basal1, Ingest Basal basal2, Ingest Basal basal3, FinalBasal]
        make_simulator))))
   = [None, Some (set_duration (Some (Num 3600000)) basal1),
      Some (set_duration (Some (Num 1800000)) basal2)]
   \<and> list_all single_level
       (fst (getEvents (snd (run Date_parse_iso None annotatingFinalizer
          [Ingest Basal basal1, Ingest Basal basal2, Ingest Basal basal3, FinalBasal]
          make_simulator))))"
proof -
  let ?cs = "[Ingest Basal basal1, Ingest Basal basal2, Ingest Basal basal3, FinalBasal]"
  have inputs: "list_all (\<lambda>c. case call_event c of None \<Rightarrow> True | Some e \<Rightarrow> single_level e) ?cs"
    by (simp add: single_level_def basal1_def basal2_def basal3_def)
  have fin: "\<And>b s. single_level b \<Longrightarrow> single_level (annotatingFinalizer b s ''tandem'')"
    by (simp add: annotatingFinalizer_def annotateEvent_def)
  have out: "map previous
     (fst (getEvents (snd (run Date_parse_iso None annotatingFinalizer ?cs make_simulator))))
   = [None, Some (set_duration (Some (Num 3600000)) basal1),
      Some (set_duration (Some (Num 1800000)) basal2)]"
    by code_simp
  show ?thesis
    using previous_is_single_level [of ?cs annotatingFinalizer Date_parse_iso None] inputs fin out
    by simp
qed

subsection \<open>Repeated broadcasts\<close>

text \<open>
  A segment that arrives with the time of the open segment closes nothing and appends
  nothing; it takes the place of the open segment.
\<close>

lemma basal_same_time:
  assumes "currBasal st = Some cb" and "time cb = time e"
    and "\<not> js_gt (currTimestamp st) (time e)"
  shows "basal Date_parse e st = (Inr (), st\<lparr>currTimestamp := Some (time e), currBasal := Some e\<rparr>)"
  using assms by (simp add: basal_def ensureTimestamp_def)

text \<open>
  C4.  The method means to ignore a repeated broadcast, but the state is not the one
  before it: after \<open>basal1\<close> and \<open>basal2\<close> the open segment is \<open>basal2\<close> with \<open>basal1\<close> as
  its \<open>previous\<close>; after \<open>basal2\<close> is broadcast once more the open segment is the new
  copy, which has no \<open>previous\<close>.
\<close>

theorem duplicate_basal_drops_previous:
  "snd (run Date_parse_iso None annotatingFinalizer
          [Ingest Basal basal1, Ingest Basal basal2] make_simulator)
   = \<lparr>events = [set_duration (Some (Num 3600000)) basal1],
      currBasal = Some (set_previous (Some (set_duration (Some (Num 3600000)) basal1)) basal2),
      currTimestamp = Some (time basal2)\<rparr>
   \<and> snd (run Date_parse_iso None annotatingFinalizer
          [Ingest Basal basal1, Ingest Basal basal2, Ingest Basal basal2] make_simulator)
   = \<lparr>events = [set_duration (Some (Num 3600000)) basal1],
      currBasal = Some basal2,
      currTimestamp = Some (time basal2)\<rparr>
   \<and> previous basal2 = None
   \<and> previous (set_previous (Some (set_duration (Some (Num 3600000)) basal1)) basal2)
       = Some (set_duration (Some (Num 3600000)) basal1)"
  by code_simp

subsection \<open>The last segment\<close>






subsection \<open>Zero-volume doses\<close>

text \<open>
  A zero-volume bolus whose \<open>expectedNormal\<close> is present and 0 is filtered out as well:
  the test in the code is \<open>!event.expectedNormal\<close>.
\<close>

theorem getEvents_drops_zero_expected_counterexample:
  "etype zeroBolusExpectedZero = ''bolus''
   \<and> normal zeroBolusExpectedZero = Some (Num 0)
   \<and> expectedNormal zeroBolusExpectedZero = Some (Num 0)
   \<and> fst (getEvents \<lparr>events = [zeroBolusExpectedZero], currBasal = None,
                      currTimestamp = Some (time zeroBolusExpectedZero)\<rparr>) = []"
  by (simp add: getEvents_def keepEvent_def zeroBolusExpectedZero_def)

lemma falsy_cases: "(\<not> truthy x) = (x = None \<or> x = Some (Num 0) \<or> x = Some NaN)"
  by (cases x rule: truthy.cases) auto

text \<open>
  C6, as the code has it.  \<open>getEvents\<close> returns the stored events, without their \<open>index\<close>
  and sorted by time, except every bolus whose \<open>normal\<close> is 0 and whose \<open>expectedNormal\<close> is
  absent, 0 or \<open>NaN\<close>, and every wizard whose embedded bolus is such a bolus.  All other
  events are kept, a zero-volume bolus with a non-zero \<open>expectedNormal\<close> among them.
\<close>

theorem getEvents_filters_zero_doses:
  "fst (getEvents st) =
     sort_key time
       (filter
          (\<lambda>e. \<not> (etype e = ''bolus'' \<and> normal e = Some (Num 0)
                    \<and> (expectedNormal e = None \<or> expectedNormal e = Some (Num 0)
                         \<or> expectedNormal e = Some NaN))
               \<and> \<not> (etype e = ''wizard''
                    \<and> (\<exists>b. wizard_bolus e = Some b \<and> normal b = Some (Num 0)
                         \<and> (expectedNormal b = None \<or> expectedNormal b = Some (Num 0)
                              \<or> expectedNormal b = Some NaN))))
          (map delete_index (events st)))"
proof -
  have "keepEvent =
      (\<lambda>e. \<not> (etype e = ''bolus'' \<and> normal e = Some (Num 0)
                    \<and> (expectedNormal e = None \<or> expectedNormal e = Some (Num 0)
                         \<or> expectedNormal e = Some NaN))
               \<and> \<not> (etype e = ''wizard''
                    \<and> (\<exists>b. wizard_bolus e = Some b \<and> normal b = Some (Num 0)
                         \<and> (expectedNormal b = None \<or> expectedNormal b = Some (Num 0)
                              \<or> expectedNormal b = Some NaN))))"
    by (rule ext) (auto simp: keepEvent_def falsy_cases split: option.splits)
  then show ?thesis
    by (simp add: getEvents_def Let_def)
qed

theorem getEvents_filters_zero_doses_witness:
  "fst (getEvents
     \<lparr>events = [smbg2, zeroBolus, zeroBolusAmended, zeroWizard, zeroBolusExpectedZero, normalBolus],
      currBasal = None, currTimestamp = Some (time smbg2)\<rparr>)
   = [normalBolus, delete_index smbg2, zeroBolusAmended]"
proof -
  have "sort_key time
       (filter
          (\<lambda>e. \<not> (etype e = ''bolus'' \<and> normal e = Some (Num 0)
                    \<and> (expectedNormal e = None \<or> expectedNormal e = Some (Num 0)
                         \<or> expectedNormal e = Some NaN))
               \<and> \<not> (etype e = ''wizard''
                    \<and> (\<exists>b. wizard_bolus e = Some b \<and> normal b = Some (Num 0)
                         \<and> (expectedNormal b = None \<or> expectedNormal b = Some (Num 0)
                              \<or> expectedNormal b = Some NaN))))
          (map delete_index
            [smbg2, zeroBolus, zeroBolusAmended, zeroWizard, zeroBolusExpectedZero, normalBolus]))
     = [normalBolus, delete_index smbg2, zeroBolusAmended]"
    by (simp add: smbg2_def zeroBolus_def zeroBolusAmended_def zeroWizard_def
        zeroBolusExpectedZero_def normalBolus_def)
  then show ?thesis
    using getEvents_filters_zero_doses
      [of "\<lparr>events = [smbg2, zeroBolus, zeroBolusAmended, zeroWizard, zeroBolusExpectedZero,
              normalBolus], currBasal = None, currTimestamp = Some (time smbg2)\<rparr>"]
    by simp
qed

section \<open>Properties of the suspend anchor\<close>

lemma ingestSuspend_in_order:
  assumes "\<not> js_gt (lastRecordTime r) (time s)"
  shows "ingestSuspend s r =
     Inr \<lparr>emittedEvents = emittedEvents r @ [s],
          pendingSuspend = (case pendingSuspend r of None \<Rightarrow> Some s | Some a \<Rightarrow> Some a),
          lastRecordTime = Some (time s)\<rparr>"
  using assms by (simp add: ingestSuspend_def enforceOrder_def)

text \<open>
  While an anchor is pending, further suspends leave it alone, and the resume or pod
  activation that ends the run is emitted with the anchor as its \<open>previous\<close>.
\<close>

lemma anchored_resume:
  assumes "pendingSuspend r = Some a"
    and "arrivesInOrder (lastRecordTime r) (ss @ [res])"
    and "closing = ResumeRecord res \<or> closing = PodActivationRecord res"
  shows "\<exists>r1 pre emittedResume.
      ingestAll (map SuspendRecord ss @ [closing]) r = Inr r1
      \<and> emittedEvents r1 = pre @ [emittedResume]
      \<and> previous emittedResume = Some a
      \<and> time emittedResume = time res \<and> etype emittedResume = etype res
      \<and> other emittedResume = other res
      \<and> pendingSuspend r1 = None
      \<and> lastRecordTime r1 = Some (time res)"
  using assms
proof (induction ss arbitrary: r)
  case Nil
  then show ?case
    by (cases res)
      (auto simp: ingestPodActivation_def ingestResume_def enforceOrder_def)
next
  case (Cons x xs)
  let ?r = "\<lparr>emittedEvents = emittedEvents r @ [x], pendingSuspend = Some a, lastRecordTime = Some (time x)\<rparr>"
  have step: "ingestSuspend x r = Inr ?r"
    using Cons.prems(1,2) by (simp add: ingestSuspend_in_order)
  have "pendingSuspend ?r = Some a" and "arrivesInOrder (lastRecordTime ?r) (xs @ [res])"
    using Cons.prems(2) by simp_all
  from Cons.IH [OF this Cons.prems(3)] step show ?case by simp
qed

text \<open>
  C7.  When no suspend is pending and a run of one or more suspends arrives in order,
  followed by a resume or a pod activation, the session succeeds; the resume it emits
  last carries the first suspend of the run as its \<open>previous\<close> and is otherwise the
  record that arrived; the anchor is cleared, and a resume that arrives next is emitted
  as it arrived, with no \<open>previous\<close> attached.
\<close>

theorem resume_anchored_to_first_suspend:
  assumes "pendingSuspend r = None"
    and "arrivesInOrder (lastRecordTime r) (s # ss @ [res])"
    and "closing = ResumeRecord res \<or> closing = PodActivationRecord res"
  shows "\<exists>r1 pre emittedResume.
      ingestAll (map SuspendRecord (s # ss) @ [closing]) r = Inr r1
      \<and> emittedEvents r1 = pre @ [emittedResume]
      \<and> previous emittedResume = Some s
      \<and> time emittedResume = time res \<and> etype emittedResume = etype res
      \<and> other emittedResume = other res
      \<and> pendingSuspend r1 = None
      \<and> (\<forall>res2. \<not> js_gt (lastRecordTime r1) (time res2) \<longrightarrow>
            (\<exists>r2. ingestResume res2 r1 = Inr r2 \<and> emittedEvents r2 = emittedEvents r1 @ [res2]))"
proof -
  let ?r = "\<lparr>emittedEvents = emittedEvents r @ [s], pendingSuspend = Some s, lastRecordTime = Some (time s)\<rparr>"
  have step: "ingestSuspend s r = Inr ?r"
    using assms(1,2) by (simp add: ingestSuspend_in_order)
  have "pendingSuspend ?r = Some s" and "arrivesInOrder (lastRecordTime ?r) (ss @ [res])"
    using assms(2) by simp_all
  from anchored_resume [OF this assms(3)]
  obtain r1 pre emittedResume where
    run: "ingestAll (map SuspendRecord ss @ [closing]) ?r = Inr r1"
    and out: "emittedEvents r1 = pre @ [emittedResume]" "previous emittedResume = Some s"
      "time emittedResume = time res" "etype emittedResume = etype res"
      "other emittedResume = other res"
    and cleared: "pendingSuspend r1 = None"
    by blast
  have whole: "ingestAll (map SuspendRecord (s # ss) @ [closing]) r = Inr r1"
    using step run by simp
  have later: "\<forall>res2. \<not> js_gt (lastRecordTime r1) (time res2) \<longrightarrow>
      (\<exists>r2. ingestResume res2 r1 = Inr r2 \<and> emittedEvents r2 = emittedEvents r1 @ [res2])"
    using cleared by (simp add: ingestResume_def enforceOrder_def)
  from whole out cleared later show ?thesis by blast
qed

theorem resume_anchored_to_first_suspend_witness:
  "arrivesInOrder None [suspend1, suspend2, resume1]
   \<and> (\<exists>r1. ingestAll [SuspendRecord suspend1, SuspendRecord suspend2, ResumeRecord resume1]
              newReconciler = Inr r1
         \<and> previous (last (emittedEvents r1)) = Some suspend1
         \<and> pendingSuspend r1 = None)
   \<and> (\<exists>r1. ingestAll [SuspendRecord suspend1, SuspendRecord suspend2,
                       PodActivationRecord resume1] newReconciler = Inr r1
         \<and> previous (last (emittedEvents r1)) = Some suspend1
         \<and> pendingSuspend r1 = None)
   \<and> suspend1 \<noteq> suspend2"
proof -
  have ord: "arrivesInOrder (lastRecordTime newReconciler) (suspend1 # [suspend2] @ [resume1])"
    by (simp add: newReconciler_def js_gt_def suspend1_def suspend2_def resume1_def)
  have none: "pendingSuspend newReconciler = None"
    by (simp add: newReconciler_def)
  have differ: "suspend1 \<noteq> suspend2"
    by (simp add: suspend1_def suspend2_def)
  have a: "\<exists>r1. ingestAll [SuspendRecord suspend1, SuspendRecord suspend2, ResumeRecord resume1]
              newReconciler = Inr r1
         \<and> previous (last (emittedEvents r1)) = Some suspend1 \<and> pendingSuspend r1 = None"
    using resume_anchored_to_first_suspend [OF none ord, of "ResumeRecord resume1"] by auto
  have b: "\<exists>r1. ingestAll [SuspendRecord suspend1, SuspendRecord suspend2,
                       PodActivationRecord resume1] newReconciler = Inr r1
         \<and> previous (last (emittedEvents r1)) = Some suspend1 \<and> pendingSuspend r1 = None"
    using resume_anchored_to_first_suspend [OF none ord, of "PodActivationRecord resume1"] by auto
  show ?thesis
    using ord a b differ by (simp add: newReconciler_def)
qed

section \<open>Properties of the termination matcher\<close>

text \<open>
  C8.  A combined dose of 1.3 immediate and 1.4 extended over duration 0, followed by
  the notices (missed 2.7, remaining 0) and (missed 1.4, remaining 3600000), is emitted
  with \<open>expectedNormal = 4\<close>, \<open>expectedExtended = 2.8\<close> and \<open>expectedDuration = 3600000\<close>.
  In general the first notice amends the immediate phase and the second the extended
  phase.
\<close>

theorem combined_dose_two_terminations:
  "emitted
     (ingestTermination \<lparr>missedInsulin = 14 / 10, durationLeft = 3600000\<rparr>
       (ingestTermination \<lparr>missedInsulin = 27 / 10, durationLeft = 0\<rparr>
         (ingestBolus (CombinedDose (13 / 10) (14 / 10) 0) newMatcher)))
   = [\<lparr>declared = CombinedDose (13 / 10) (14 / 10) 0, doseExpectedNormal = Some 4,
       doseExpectedExtended = Some (28 / 10), doseExpectedDuration = Some 3600000\<rparr>]
   \<and> emitted
     (ingestTermination \<lparr>missedInsulin = m2, durationLeft = r2\<rparr>
       (ingestTermination \<lparr>missedInsulin = m1, durationLeft = r1\<rparr>
         (ingestBolus (CombinedDose n e d) newMatcher)))
   = [\<lparr>declared = CombinedDose n e d, doseExpectedNormal = Some (n + m1),
       doseExpectedExtended = Some (e + m2), doseExpectedDuration = Some (d + r2)\<rparr>]"
  by (simp add: ingestTermination_def ingestBolus_def newMatcher_def)

section \<open>Properties of the timezone offset utility\<close>

text \<open>
  A change whose delta, rounded to the quarter hour, is beyond \<open>MAX_DIFF\<close> leaves the
  current offset as it is.
\<close>

lemma adjustCurrentOffset_no_op:
  "\<bar>findOffsetDifference sd event\<bar> > 1560 \<Longrightarrow> adjustCurrentOffset sd event currentOffset = currentOffset"
  by (simp add: adjustCurrentOffset_def MAX_DIFF_def)

text \<open>
  C9.  The guard of \<open>adjustCurrentOffset\<close> uses the delta rounded to 15 minutes, as the
  comment in \<open>findOffsetDifference\<close> says; the adjustment itself rounds the delta to 60
  minutes.  For the change from 12:45 to 12:00 the quarter-hour delta is 45, and the
  offset 0 becomes 60; for the change from 08:10 to 08:00 the quarter-hour delta is 15,
  and the offset stays 60.
\<close>

theorem adjustCurrentOffset_rounds_to_the_hour:
  "dateDifference exampleSundial (change_from change20) (change_to change20) = 45
   \<and> findOffsetDifference exampleSundial change20 = 45
   \<and> adjustCurrentOffset exampleSundial change20 0 = 60
   \<and> dateDifference exampleSundial (change_from change10) (change_to change10) = 10
   \<and> findOffsetDifference exampleSundial change10 = 15
   \<and> adjustCurrentOffset exampleSundial change10 60 = 60"
  by code_simp

subsection \<open>Lookup by index\<close>

lemma lookup_loop_append:
  "lookup_loop sd datetime index (xs @ ys) =
     (case lookup_loop sd datetime index xs of
        Some r \<Rightarrow> Some r
      | None \<Rightarrow> lookup_loop sd datetime index ys)"
  by (induction xs) (auto simp: Let_def split: option.splits)

lemma olderChanges_not_empty: "olderChanges sd cs currentOffset currentIndex lastTime ivs \<noteq> []"
  by (induction cs arbitrary: currentOffset currentIndex lastTime ivs) (auto simp: Let_def)

text \<open>
  The index bounds of the intervals follow the indices of the changes from the most
  recent one down; an index that is one of them lies strictly between no two
  neighbours.
\<close>

lemma olderChanges_no_match:
  assumes "lookup_loop sd datetime (Some x) ivs = None"
    and "sorted_wrt (\<ge>) (currentIndex # map seq_index cs)"
    and "x \<ge> currentIndex \<or> x \<in> set (map seq_index cs)"
  shows "lookup_loop sd datetime (Some x)
           (olderChanges sd cs currentOffset currentIndex lastTime ivs) = None"
  using assms
proof (induction cs arbitrary: currentOffset currentIndex lastTime ivs)
  case Nil
  then show ?case by (simp add: lookup_loop_append)
next
  case (Cons c cs)
  let ?iv = "\<lparr>start = Some (applyOffset sd (jsDate c) (- currentOffset)), endTime = lastTime,
     startIndex = Some currentIndex, endIndex = Some (seq_index c), timezoneOffset = currentOffset\<rparr>"
  have below: "\<forall>i \<in> set (map seq_index (c # cs)). i \<le> seq_index c"
    using Cons.prems(2) by auto
  have nomatch: "\<not> (x < currentIndex \<and> x > seq_index c)"
    using Cons.prems(3) below by auto
  have ivs': "lookup_loop sd datetime (Some x) (ivs @ [?iv]) = None"
    using Cons.prems(1) nomatch by (simp add: lookup_loop_append)
  have sorted': "sorted_wrt (\<ge>) (seq_index c # map seq_index cs)"
    using Cons.prems(2) by simp
  have next': "x \<ge> seq_index c \<or> x \<in> set (map seq_index cs)"
    using Cons.prems(2,3) by auto
  show ?case
    using Cons.IH [OF ivs' sorted' next'] by (simp add: Let_def)
qed

lemma sorted_desc: "sorted_wrt (\<ge>) (map seq_index (rev (sort_key seq_index cs)))"
proof -
  have "sorted (map seq_index (sort_key seq_index cs))" by simp
  then have "sorted_wrt (\<le>) (map seq_index (sort_key seq_index cs))" by simp
  then show ?thesis
    by (simp add: rev_map [symmetric] sorted_wrt_rev)
qed

text \<open>
  C10.  When the constructor was given clock changes, a lookup with the index of one of
  them matches no interval, since every bound is exclusive, and returns \<open>undefined\<close>.
\<close>

theorem lookup_at_change_index_is_undefined:
  assumes "TimezoneOffsetUtil sd timezone mostRecent changes = Inr offsetIntervals"
    and "c \<in> set changes"
  shows "lookup sd timezone offsetIntervals datetime (Some (seq_index c)) = None"
proof -
  let ?x = "seq_index c"
  from assms(2) have ne: "changes \<noteq> []" by auto
  then have "length (rev (sort_key seq_index changes)) \<noteq> 0" by simp
  then have "rev (sort_key seq_index changes) \<noteq> []" by (simp only: length_0_conv not_False_eq_True)
  then obtain c0 rest where sorted_eq: "rev (sort_key seq_index changes) = c0 # rest"
    by (cases "rev (sort_key seq_index changes)") auto
  have desc: "sorted_wrt (\<ge>) (seq_index c0 # map seq_index rest)"
    using sorted_desc [of changes] sorted_eq by simp
  have cin: "c \<in> set (c0 # rest)"
    using assms(2) sorted_eq [symmetric] by simp
  then have mem: "?x \<ge> seq_index c0 \<or> ?x \<in> set (map seq_index rest)" by auto
  have le: "?x \<le> seq_index c0" using cin desc by auto
  let ?t = "applyTimezone sd (jsDate c0) timezone"
  let ?off = "getOffsetFromZone sd ?t timezone"
  let ?iv0 = "\<lparr>start = Some ?t, endTime = mostRecent, startIndex = None,
                endIndex = Some (seq_index c0), timezoneOffset = ?off\<rparr>"
  have ivs: "offsetIntervals =
      olderChanges sd rest (adjustCurrentOffset sd c0 ?off) (seq_index c0) ?t [?iv0]"
    using assms(1) ne sorted_eq
    by (simp add: TimezoneOffsetUtil_def Let_def split: if_splits)
  have first: "lookup_loop sd datetime (Some ?x) [?iv0] = None"
    using le by simp
  have "lookup_loop sd datetime (Some ?x) offsetIntervals = None"
    unfolding ivs by (rule olderChanges_no_match [OF first desc mem])
  moreover have "offsetIntervals \<noteq> []"
    unfolding ivs by (rule olderChanges_not_empty)
  ultimately show ?thesis by (simp add: lookup_def)
qed

theorem lookup_at_change_index_is_undefined_witness:
  "TimezoneOffsetUtil exampleSundial ''UTC'' ''2014-09-26T00:00:00.000Z'' [change10, change20]
   = Inr [\<lparr>start = Some ''2014-09-25T12:00:00.000Z'', endTime = ''2014-09-26T00:00:00.000Z'',
           startIndex = None, endIndex = Some 20, timezoneOffset = 0\<rparr>,
          \<lparr>start = Some ''2014-09-24T07:00:00.000Z'', endTime = ''2014-09-25T12:00:00.000Z'',
           startIndex = Some 20, endIndex = Some 10, timezoneOffset = 60\<rparr>,
          \<lparr>start = None, endTime = ''2014-09-24T07:00:00.000Z'',
           startIndex = Some 10, endIndex = None, timezoneOffset = 60\<rparr>]
   \<and> lookup exampleSundial ''UTC''
        [\<lparr>start = Some ''2014-09-25T12:00:00.000Z'', endTime = ''2014-09-26T00:00:00.000Z'',
           startIndex = None, endIndex = Some 20, timezoneOffset = 0\<rparr>,
          \<lparr>start = Some ''2014-09-24T07:00:00.000Z'', endTime = ''2014-09-25T12:00:00.000Z'',
           startIndex = Some 20, endIndex = Some 10, timezoneOffset = 60\<rparr>,
          \<lparr>start = None, endTime = ''2014-09-24T07:00:00.000Z'',
           startIndex = Some 10, endIndex = None, timezoneOffset = 60\<rparr>]
        ''2014-09-25T12:00:00'' (Some 20) = None"
proof -
  have built: "TimezoneOffsetUtil exampleSundial ''UTC'' ''2014-09-26T00:00:00.000Z''
      [change10, change20]
   = Inr [\<lparr>start = Some ''2014-09-25T12:00:00.000Z'', endTime = ''2014-09-26T00:00:00.000Z'',
           startIndex = None, endIndex = Some 20, timezoneOffset = 0\<rparr>,
          \<lparr>start = Some ''2014-09-24T07:00:00.000Z'', endTime = ''2014-09-25T12:00:00.000Z'',
           startIndex = Some 20, endIndex = Some 10, timezoneOffset = 60\<rparr>,
          \<lparr>start = None, endTime = ''2014-09-24T07:00:00.000Z'',
           startIndex = Some 10, endIndex = None, timezoneOffset = 60\<rparr>]"
    by code_simp
  have mem: "change20 \<in> set [change10, change20]" by simp
  have idx: "seq_index change20 = 20" by (simp add: change20_def)
  show ?thesis
    using lookup_at_change_index_is_undefined [OF built mem, of "''2014-09-25T12:00:00''"] built
    by (simp add: idx)
qed

end
